theory Spec2Isabelle
  imports Main "HOL-Library.Word"
begin

section \<open>Package reflowlet: the server exposing a local pool\<close>

text \<open>
  \<^verbatim>\<open>reflowlet.go\<close>. Go's \<^verbatim>\<open>error\<close> values are modelled by their messages;
  a function returning \<^verbatim>\<open>(T, error)\<close> returns \<open>error + T\<close>, with \<open>Inl\<close> the error.
\<close>

type_synonym error = string

text \<open>\<^verbatim>\<open>time.Duration\<close> counts nanoseconds.\<close>

type_synonym Duration = int

definition Minute :: Duration where
  "Minute = 60 * 1000000000"

text \<open>The constants of the idle watcher's closure in \<^verbatim>\<open>ListenAndServe\<close>.\<close>

definition period :: Duration where
  "period = Minute"

definition expiry :: Duration where
  "expiry = 10 * Minute"

text \<open>\<^verbatim>\<open>const maxConcurrentStreams = 20000\<close>; the field it is stored in is a \<^verbatim>\<open>uint32\<close>.\<close>

definition maxConcurrentStreams :: "32 word" where
  "maxConcurrentStreams = 20000"

text \<open>\<^verbatim>\<open>tls.ClientAuthType\<close>, in the order of the standard library's constants.\<close>

datatype ClientAuthType =
  NoClientCert | RequestClientCert | RequireAnyClientCert
  | VerifyClientCertIfGiven | RequireAndVerifyClientCert

text \<open>
  \<^verbatim>\<open>tls.Config\<close>: the one field the server writes, and the rest of the configuration
  (certificates, pools) as it comes from \<^verbatim>\<open>Config.HTTPS()\<close>.
\<close>

record TLSConfig =
  ClientAuth :: ClientAuthType
  Certificates :: string

record HTTP2Server =
  MaxConcurrentStreams :: "32 word"

text \<open>
  \<^verbatim>\<open>config.Config\<close> after \<^verbatim>\<open>config.Make\<close>: what each of the four provider methods
  called by \<^verbatim>\<open>ListenAndServe\<close> returns.
\<close>

record Config =
  AWS :: "error + string"
  HTTPS :: "error + (TLSConfig \<times> TLSConfig)"
  AWSCreds :: "error + string"
  AWSTool :: "error + string"

record Server =
  Config :: Config
  Addr :: string
  Prefix :: string
  Insecure :: bool
  Dir :: string
  NDigest :: int
  EC2Cluster :: bool
  HTTPDebug :: bool
  configFlag :: string

text \<open>\<^verbatim>\<open>local.Pool\<close> as \<^verbatim>\<open>ListenAndServe\<close> fills it in.\<close>

record Pool =
  Client :: string
  PoolDir :: string
  PoolPrefix :: string
  Authenticator :: string
  AWSImage :: string
  PoolAWSCreds :: string
  Log :: string
  DigestLimiter :: int

text \<open>
  What the function reads from outside the program: the file system, the environment,
  the configuration package (\<^verbatim>\<open>config.Unmarshal\<close>, \<^verbatim>\<open>config.Make\<close>), the Docker client
  library and the pool's \<^verbatim>\<open>Start\<close>.
\<close>

record World =
  ReadFile :: "string \<Rightarrow> error + string"
  configUnmarshal :: "string \<Rightarrow> Config \<Rightarrow> error + Config"
  configMake :: "Config \<Rightarrow> error + Config"
  Getenv :: "string \<Rightarrow> string"
  NewClient :: "string \<Rightarrow> error + string"
  Start :: "Pool \<Rightarrow> error option"

text \<open>The two ways the function ends up serving.\<close>

datatype Serving =
  ListenAndServeHTTP string
  | ListenAndServeTLS string TLSConfig HTTP2Server

text \<open>
  What a call that gets past its set-up has put in place: the global clients, the started
  pool, the idle watcher goroutine (with the expiry and the period it was started with)
  when there is one, the debug logging, and the server it blocks in.
\<close>

record Launch =
  s3Client :: string
  httpClient :: TLSConfig
  pool :: Pool
  idleWatcher :: "(Duration \<times> Duration) option"
  httpLogDebug :: bool
  serving :: Serving

definition loadConfig :: "Server \<Rightarrow> World \<Rightarrow> error + Config" where
  "loadConfig s w =
     (case (if configFlag s \<noteq> []
            then (case ReadFile w (configFlag s) of
                    Inl err \<Rightarrow> Inl err
                  | Inr b \<Rightarrow> configUnmarshal w b (Config s))
            else Inr (Config s)) of
        Inl err \<Rightarrow> Inl err
      | Inr c \<Rightarrow> configMake w c)"

definition dockerAddr :: "World \<Rightarrow> string" where
  "dockerAddr w =
     (if Getenv w ''DOCKER_HOST'' = [] then ''unix:///var/run/docker.sock''
      else Getenv w ''DOCKER_HOST'')"

definition serve :: "Server \<Rightarrow> TLSConfig \<Rightarrow> Serving" where
  "serve s serverConfig =
     (if Insecure s then ListenAndServeHTTP (Addr s)
      else ListenAndServeTLS (Addr s)
             (serverConfig\<lparr>ClientAuth := RequireAndVerifyClientCert\<rparr>)
             \<lparr>MaxConcurrentStreams = maxConcurrentStreams\<rparr>)"

definition ListenAndServe :: "Server \<Rightarrow> World \<Rightarrow> error + Launch" where
  "ListenAndServe s w =
     (case loadConfig s w of Inl err \<Rightarrow> Inl err | Inr c \<Rightarrow>
      (case NewClient w (dockerAddr w) of Inl err \<Rightarrow> Inl err | Inr client \<Rightarrow>
      (case AWS c of Inl err \<Rightarrow> Inl err | Inr sess \<Rightarrow>
      (case HTTPS c of Inl err \<Rightarrow> Inl err | Inr (clientConfig, serverConfig) \<Rightarrow>
      (case AWSCreds c of Inl err \<Rightarrow> Inl err | Inr creds \<Rightarrow>
      (case AWSTool c of Inl err \<Rightarrow> Inl err | Inr tool \<Rightarrow>
        (let p = \<lparr>Client = client, PoolDir = Dir s, PoolPrefix = Prefix s,
                  Authenticator = sess, AWSImage = tool, PoolAWSCreds = creds,
                  Log = ''executor: '', DigestLimiter = NDigest s\<rparr>
         in case Start w p of Some err \<Rightarrow> Inl err | None \<Rightarrow>
              Inr \<lparr>s3Client = sess, httpClient = clientConfig, pool = p,
                   idleWatcher = (if EC2Cluster s then Some (expiry, period) else None),
                   httpLogDebug = HTTPDebug s,
                   serving = serve s serverConfig\<rparr>)))))))"

subsection \<open>The idle watcher\<close>

text \<open>
  The goroutine started when \<^verbatim>\<open>EC2Cluster\<close> is set. It never returns by itself, so it
  is run for a number of loop iterations (the fuel) and yields the events of that prefix
  of its run. The clock starts at 0 when the goroutine starts; \<^verbatim>\<open>time.Sleep d\<close> advances
  it by \<open>d\<close> and a call of \<^verbatim>\<open>p.StopIfIdleFor\<close> takes no time. What
  \<^verbatim>\<open>p.StopIfIdleFor d\<close> answers when called at time \<open>t\<close> is the parameter \<open>stop t d\<close>.
  A \<^verbatim>\<open>log.Fatalf\<close> is recorded with its time, its format and its argument.
\<close>

datatype event =
  Sleep Duration
  | StopIfIdleFor int Duration bool
  | Fatalf int string Duration

fun watchLoop :: "(int \<Rightarrow> Duration \<Rightarrow> bool) \<Rightarrow> Duration \<Rightarrow> Duration \<Rightarrow> nat \<Rightarrow> int \<Rightarrow> event list" where
  "watchLoop stop e p 0 now = []"
| "watchLoop stop e p (Suc n) now =
     (if stop now e
      then [StopIfIdleFor now e True, Fatalf now ''reflowlet idle for %s; shutting down'' e]
      else StopIfIdleFor now e False # Sleep p # watchLoop stop e p n (now + p))"

definition watcher :: "(int \<Rightarrow> Duration \<Rightarrow> bool) \<Rightarrow> Duration \<times> Duration \<Rightarrow> nat \<Rightarrow> event list" where
  "watcher stop ep n = (case ep of (e, p) \<Rightarrow> Sleep e # watchLoop stop e p n e)"

text \<open>
  The events of the idle watcher of a call of \<^verbatim>\<open>ListenAndServe\<close>, up to the given
  number of loop iterations: none when the call returned an error before the goroutine
  was started, and none when no goroutine is started.
\<close>

definition idleEvents :: "Server \<Rightarrow> World \<Rightarrow> (int \<Rightarrow> Duration \<Rightarrow> bool) \<Rightarrow> nat \<Rightarrow> event list" where
  "idleEvents s w stop n =
     (case ListenAndServe s w of
        Inl err \<Rightarrow> []
      | Inr l \<Rightarrow> (case idleWatcher l of None \<Rightarrow> [] | Some ep \<Rightarrow> watcher stop ep n))"

text \<open>The times at which the process is shut down, and at which the pool is asked.\<close>

fun shutdowns :: "event list \<Rightarrow> int list" where
  "shutdowns [] = []"
| "shutdowns (Fatalf t m d # es) = t # shutdowns es"
| "shutdowns (ev # es) = shutdowns es"

fun checks :: "event list \<Rightarrow> int list" where
  "checks [] = []"
| "checks (StopIfIdleFor t d b # es) = t # checks es"
| "checks (ev # es) = checks es"


text \<open>
  The time of the \<open>k\<close>-th question to the pool when every sleep lasts exactly as long as
  asked: ten minutes after the goroutine starts, and one more minute each time.
\<close>

definition checkTime :: "nat \<Rightarrow> int" where
  "checkTime k = 10 * Minute + int k * Minute"

subsection \<open>Concrete servers and worlds\<close>

definition okConfig :: Config where
  "okConfig = \<lparr>AWS = Inr ''session'',
               HTTPS = Inr (\<lparr>ClientAuth = NoClientCert, Certificates = ''client''\<rparr>,
                            \<lparr>ClientAuth = NoClientCert, Certificates = ''server''\<rparr>),
               AWSCreds = Inr ''creds'', AWSTool = Inr ''awstool''\<rparr>"

definition okWorld :: World where
  "okWorld = \<lparr>ReadFile = (\<lambda>f. Inl ''no such file''),
              configUnmarshal = (\<lambda>b c. Inr c),
              configMake = (\<lambda>c. Inr c),
              Getenv = (\<lambda>k. []),
              NewClient = (\<lambda>a. Inr a),
              Start = (\<lambda>p. None)\<rparr>"

definition flagServer :: "bool \<Rightarrow> bool \<Rightarrow> Server" where
  "flagServer insecure ec2 =
     \<lparr>Config = okConfig, Addr = '':9000'', Prefix = [], Insecure = insecure,
      Dir = ''/mnt/data/reflow'', NDigest = 32, EC2Cluster = ec2, HTTPDebug = False,
      configFlag = []\<rparr>"

definition idleFrom :: "int \<Rightarrow> int \<Rightarrow> Duration \<Rightarrow> bool" where
  "idleFrom t0 t d = (t0 \<le> t)"


section \<open>Properties of the reflowlet server\<close>

lemma ListenAndServe_Inr:
  assumes "ListenAndServe s w = Inr l"
  shows "(\<exists>serverConfig. serving l = serve s serverConfig)
           \<and> idleWatcher l = (if EC2Cluster s then Some (expiry, period) else None)"
  using assms
  by (auto simp: ListenAndServe_def Let_def split: sum.splits option.splits prod.splits)

lemma ListenAndServe_okWorld:
  "ListenAndServe (flagServer i e) okWorld =
     Inr \<lparr>s3Client = ''session'',
          httpClient = \<lparr>ClientAuth = NoClientCert, Certificates = ''client''\<rparr>,
          pool = \<lparr>Client = ''unix:///var/run/docker.sock'', PoolDir = ''/mnt/data/reflow'',
                  PoolPrefix = [], Authenticator = ''session'', AWSImage = ''awstool'',
                  PoolAWSCreds = ''creds'', Log = ''executor: '', DigestLimiter = 32\<rparr>,
          idleWatcher = (if e then Some (expiry, period) else None),
          httpLogDebug = False,
          serving = serve (flagServer i e) \<lparr>ClientAuth = NoClientCert, Certificates = ''server''\<rparr>\<rparr>"
  by (simp add: ListenAndServe_def loadConfig_def dockerAddr_def okWorld_def okConfig_def
      flagServer_def)

text \<open>
  C10. A call of \<^verbatim>\<open>ListenAndServe\<close> that gets to serving serves plain HTTP exactly when
  \<^verbatim>\<open>Insecure\<close> is set; otherwise it serves TLS on the same address, with the server
  configuration of \<^verbatim>\<open>Config.HTTPS()\<close> changed in \<^verbatim>\<open>ClientAuth\<close> only, which is
  \<^verbatim>\<open>tls.RequireAndVerifyClientCert\<close>, and with HTTP/2 configured for 20000 concurrent
  streams.
\<close>

theorem ListenAndServe_serving:
  assumes "ListenAndServe s w = Inr l"
  shows "(Insecure s \<longleftrightarrow> serving l = ListenAndServeHTTP (Addr s))
       \<and> (\<not> Insecure s \<longleftrightarrow>
            (\<exists>cfg h2. serving l = ListenAndServeTLS (Addr s) cfg h2
               \<and> ClientAuth cfg = RequireAndVerifyClientCert
               \<and> unat (MaxConcurrentStreams h2) = 20000))"
proof -
  from ListenAndServe_Inr [OF assms] obtain serverConfig
    where sv: "serving l = serve s serverConfig" by blast
  show ?thesis
  proof (cases "Insecure s")
    case True
    with sv show ?thesis by (simp add: serve_def)
  next
    case False
    with sv show ?thesis by (simp add: serve_def maxConcurrentStreams_def)
  qed
qed

theorem ListenAndServe_serving_witness:
  "(\<exists>l. ListenAndServe (flagServer True False) okWorld = Inr l
        \<and> serving l = ListenAndServeHTTP '':9000'')
   \<and> (\<exists>l cfg h2. ListenAndServe (flagServer False False) okWorld = Inr l
        \<and> serving l = ListenAndServeTLS '':9000'' cfg h2
        \<and> ClientAuth cfg = RequireAndVerifyClientCert
        \<and> unat (MaxConcurrentStreams h2) = 20000)"
proof -
  have a: "Insecure (flagServer True False)" "\<not> Insecure (flagServer False False)"
    "Addr (flagServer True False) = '':9000''" "Addr (flagServer False False) = '':9000''"
    by (simp_all add: flagServer_def)
  show ?thesis
    using ListenAndServe_serving [OF ListenAndServe_okWorld [of True False]]
      ListenAndServe_serving [OF ListenAndServe_okWorld [of False False]] a
    by (simp add: ListenAndServe_okWorld)
qed


subsection \<open>The idle watcher's schedule\<close>

lemma watchLoop_quiet:
  "\<forall>j<n. \<not> stop (now + int j * p) e \<Longrightarrow>
     checks (watchLoop stop e p n now) = map (\<lambda>j. now + int j * p) [0..<n]
     \<and> shutdowns (watchLoop stop e p n now) = []"
proof (induction n arbitrary: now)
  case 0
  show ?case by simp
next
  case (Suc n)
  from Suc.prems have first: "\<not> stop now e" by force
  have "\<forall>j<n. \<not> stop (now + p + int j * p) e"
  proof (intro allI impI)
    fix j assume "j < n"
    then have "Suc j < Suc n" by simp
    with Suc.prems(1) have "\<not> stop (now + int (Suc j) * p) e" by blast
    then show "\<not> stop (now + p + int j * p) e" by (simp add: algebra_simps)
  qed
  from Suc.IH [OF this] first show ?case
    by (simp add: map_upt_Suc algebra_simps del: upt_Suc)
qed

lemma watchLoop_first:
  "k < n \<Longrightarrow> stop (now + int k * p) e \<Longrightarrow> \<forall>j<k. \<not> stop (now + int j * p) e \<Longrightarrow>
     checks (watchLoop stop e p n now) = map (\<lambda>j. now + int j * p) [0..<Suc k]
     \<and> shutdowns (watchLoop stop e p n now) = [now + int k * p]"
proof (induction k arbitrary: n now)
  case 0
  then obtain m where "n = Suc m" by (cases n) auto
  with 0 show ?case by simp
next
  case (Suc k)
  from Suc.prems obtain m where n: "n = Suc m" and km: "k < m" by (cases n) auto
  from Suc.prems have first: "\<not> stop now e" by force
  have idle: "stop (now + p + int k * p) e"
    using Suc.prems(2) by (simp add: algebra_simps)
  have "\<forall>j<k. \<not> stop (now + p + int j * p) e"
  proof (intro allI impI)
    fix j assume "j < k"
    then have "Suc j < Suc k" by simp
    with Suc.prems(3) have "\<not> stop (now + int (Suc j) * p) e" by blast
    then show "\<not> stop (now + p + int j * p) e" by (simp add: algebra_simps)
  qed
  from Suc.IH [OF km idle this] first n show ?case
    by (simp add: map_upt_Suc [of _ "Suc k"] algebra_simps del: upt_Suc)
qed

lemma watchLoop_not_before:
  "0 \<le> p \<Longrightarrow> t \<in> set (checks (watchLoop stop e p n now)) \<union> set (shutdowns (watchLoop stop e p n now))
     \<Longrightarrow> now \<le> t"
proof (induction n arbitrary: now)
  case 0
  then show ?case by simp
next
  case (Suc n)
  show ?case
  proof (cases "stop now e")
    case True
    with Suc.prems show ?thesis by auto
  next
    case False
    with Suc.prems have "t = now \<or> t \<in> set (checks (watchLoop stop e p n (now + p)))
        \<union> set (shutdowns (watchLoop stop e p n (now + p)))" by auto
    then show ?thesis
    proof
      assume "t = now" then show ?thesis by simp
    next
      assume "t \<in> set (checks (watchLoop stop e p n (now + p)))
        \<union> set (shutdowns (watchLoop stop e p n (now + p)))"
      from Suc.IH [OF Suc.prems(1) this] Suc.prems(1) show ?thesis by simp
    qed
  qed
qed

lemma idleEvents_cases:
  "idleEvents s w stop n = [] \<and> (\<not> EC2Cluster s \<or> (\<forall>l. ListenAndServe s w \<noteq> Inr l))
   \<or> idleEvents s w stop n = Sleep expiry # watchLoop stop expiry period n expiry
       \<and> EC2Cluster s \<and> (\<exists>l. ListenAndServe s w = Inr l)"
proof (cases "ListenAndServe s w")
  case (Inl err)
  then show ?thesis by (simp add: idleEvents_def)
next
  case (Inr l)
  from ListenAndServe_Inr [OF Inr] Inr show ?thesis
    by (simp add: idleEvents_def watcher_def)
qed

text \<open>
  C9. With the clock of the watcher's model (started with the goroutine, advanced by the
  sleeps): when \<^verbatim>\<open>EC2Cluster\<close> is false the watcher does nothing at all; the pool is
  never asked and the process is never shut down before ten minutes have passed; and when
  \<^verbatim>\<open>EC2Cluster\<close> is true and the call got past its set-up, the pool is asked whether it
  has been idle for ten minutes at the times \<open>10 min + k * 1 min\<close>, and the process is
  shut down (\<^verbatim>\<open>log.Fatalf\<close>) at the first of these times at which the pool says yes, and
  not at all while it says no.
\<close>

theorem idle_shutdown_schedule:
  "(\<not> EC2Cluster s \<longrightarrow> idleEvents s w stop n = [])
   \<and> (\<forall>t \<in> set (checks (idleEvents s w stop n)) \<union> set (shutdowns (idleEvents s w stop n)).
        10 * Minute \<le> t)
   \<and> (EC2Cluster s \<and> (\<exists>l. ListenAndServe s w = Inr l) \<longrightarrow>
        ((\<forall>j<n. \<not> stop (checkTime j) (10 * Minute)) \<longrightarrow>
            checks (idleEvents s w stop n) = map checkTime [0..<n]
            \<and> shutdowns (idleEvents s w stop n) = [])
        \<and> (\<forall>k<n. stop (checkTime k) (10 * Minute)
                   \<and> (\<forall>j<k. \<not> stop (checkTime j) (10 * Minute)) \<longrightarrow>
            checks (idleEvents s w stop n) = map checkTime [0..<Suc k]
            \<and> shutdowns (idleEvents s w stop n) = [checkTime k]))"
proof (intro conjI)
  show "\<not> EC2Cluster s \<longrightarrow> idleEvents s w stop n = []"
    using idleEvents_cases [of s w stop n] by blast
next
  show "\<forall>t \<in> set (checks (idleEvents s w stop n)) \<union> set (shutdowns (idleEvents s w stop n)).
          10 * Minute \<le> t"
  proof
    fix t
    assume t: "t \<in> set (checks (idleEvents s w stop n)) \<union> set (shutdowns (idleEvents s w stop n))"
    with idleEvents_cases [of s w stop n]
    have "t \<in> set (checks (watchLoop stop expiry period n expiry))
            \<union> set (shutdowns (watchLoop stop expiry period n expiry))"
      by auto
    from watchLoop_not_before [OF _ this] show "10 * Minute \<le> t"
      by (simp add: expiry_def period_def Minute_def)
  qed
next
  show "EC2Cluster s \<and> (\<exists>l. ListenAndServe s w = Inr l) \<longrightarrow>
        ((\<forall>j<n. \<not> stop (checkTime j) (10 * Minute)) \<longrightarrow>
            checks (idleEvents s w stop n) = map checkTime [0..<n]
            \<and> shutdowns (idleEvents s w stop n) = [])
        \<and> (\<forall>k<n. stop (checkTime k) (10 * Minute)
                   \<and> (\<forall>j<k. \<not> stop (checkTime j) (10 * Minute)) \<longrightarrow>
            checks (idleEvents s w stop n) = map checkTime [0..<Suc k]
            \<and> shutdowns (idleEvents s w stop n) = [checkTime k])"
  proof
    assume "EC2Cluster s \<and> (\<exists>l. ListenAndServe s w = Inr l)"
    with idleEvents_cases [of s w stop n]
    have ev: "idleEvents s w stop n = Sleep expiry # watchLoop stop expiry period n expiry"
      by blast
    have ct: "checkTime = (\<lambda>j. expiry + int j * period)"
      by (simp add: checkTime_def expiry_def period_def fun_eq_iff)
    have e: "10 * Minute = expiry" by (simp add: expiry_def)
    show "((\<forall>j<n. \<not> stop (checkTime j) (10 * Minute)) \<longrightarrow>
            checks (idleEvents s w stop n) = map checkTime [0..<n]
            \<and> shutdowns (idleEvents s w stop n) = [])
        \<and> (\<forall>k<n. stop (checkTime k) (10 * Minute)
                   \<and> (\<forall>j<k. \<not> stop (checkTime j) (10 * Minute)) \<longrightarrow>
            checks (idleEvents s w stop n) = map checkTime [0..<Suc k]
            \<and> shutdowns (idleEvents s w stop n) = [checkTime k])"
      unfolding ev ct e
      using watchLoop_quiet [of n stop expiry period expiry]
        watchLoop_first [of _ n stop expiry period expiry]
      by simp
  qed
qed

theorem idle_shutdown_schedule_witness:
  "idleEvents (flagServer False False) okWorld (idleFrom (12 * Minute)) 5 = []
   \<and> checks (idleEvents (flagServer False True) okWorld (idleFrom (12 * Minute)) 5)
       = [10 * Minute, 11 * Minute, 12 * Minute]
   \<and> shutdowns (idleEvents (flagServer False True) okWorld (idleFrom (12 * Minute)) 5)
       = [12 * Minute]
   \<and> checks (idleEvents (flagServer False True) okWorld (idleFrom (20 * Minute)) 3)
       = [10 * Minute, 11 * Minute, 12 * Minute]
   \<and> shutdowns (idleEvents (flagServer False True) okWorld (idleFrom (20 * Minute)) 3) = []"
proof -
  have noec2: "\<not> EC2Cluster (flagServer False False)" by (simp add: flagServer_def)
  have "EC2Cluster (flagServer False True)" by (simp add: flagServer_def)
  moreover have "\<exists>l. ListenAndServe (flagServer False True) okWorld = Inr l"
    by (simp add: ListenAndServe_okWorld)
  ultimately have ec2: "EC2Cluster (flagServer False True)
      \<and> (\<exists>l. ListenAndServe (flagServer False True) okWorld = Inr l)" by blast
  have first: "(2::nat) < 5 \<and> idleFrom (12 * Minute) (checkTime 2) (10 * Minute)
      \<and> (\<forall>j<2. \<not> idleFrom (12 * Minute) (checkTime j) (10 * Minute))"
    by (simp add: idleFrom_def checkTime_def Minute_def)
  have never: "\<forall>j<3. \<not> idleFrom (20 * Minute) (checkTime j) (10 * Minute)"
    by (simp add: idleFrom_def checkTime_def Minute_def)
  have ups: "map checkTime [0..<Suc 2] = [10 * Minute, 11 * Minute, 12 * Minute]"
    "map checkTime [0..<3] = [10 * Minute, 11 * Minute, 12 * Minute]"
    "checkTime 2 = 12 * Minute"
    by (simp_all add: checkTime_def Minute_def upt_rec)
  from idle_shutdown_schedule [of "flagServer False False" okWorld "idleFrom (12 * Minute)" 5] noec2
  have a: "idleEvents (flagServer False False) okWorld (idleFrom (12 * Minute)) 5 = []"
    by blast
  from idle_shutdown_schedule [of "flagServer False True" okWorld "idleFrom (12 * Minute)" 5] ec2 first
  have b: "checks (idleEvents (flagServer False True) okWorld (idleFrom (12 * Minute)) 5)
             = map checkTime [0..<Suc 2]
         \<and> shutdowns (idleEvents (flagServer False True) okWorld (idleFrom (12 * Minute)) 5)
             = [checkTime 2]"
    by blast
  from idle_shutdown_schedule [of "flagServer False True" okWorld "idleFrom (20 * Minute)" 3] ec2 never
  have c: "checks (idleEvents (flagServer False True) okWorld (idleFrom (20 * Minute)) 3)
             = map checkTime [0..<3]
         \<and> shutdowns (idleEvents (flagServer False True) okWorld (idleFrom (20 * Minute)) 3) = []"
    by blast
  from a b c ups show ?thesis by simp
qed

end
